theory Spec2Isabelle
  imports Complex_Main "HOL-Library.AList" "HOL-Library.Char_ord" "HOL-Library.List_Lexorder"
begin

section \<open>The binary classifier of neuralprophet/classification.py\<close>

text \<open>
  \<^verbatim>\<open>Classification_NP\<close> subclasses the forecaster \<^verbatim>\<open>NeuralProphet\<close> and overrides
  \<^verbatim>\<open>__init__\<close>, \<^verbatim>\<open>fit\<close> and \<^verbatim>\<open>predict\<close>. The three methods are embedded below as HOL
  functions. What a method raises is a value \<open>Inl e\<close> of the sum type \<open>error + 'a\<close>; the
  collaborators that live in other modules (the parent class, \<^verbatim>\<open>configure\<close>,
  \<^verbatim>\<open>df_utils\<close>) are arguments of the functions that call them.
\<close>

subsection \<open>Python values, strings and errors\<close>

datatype error =
    ValueError string
  | KeyError string
  | AttributeError string
  | NotImplementedError string
  | InvalidIndexError string

text \<open>
  The values a keyword argument such as \<^verbatim>\<open>collect_metrics\<close> can hold. \<open>PObject t\<close> is
  an object of any other type \<open>t\<close> (a float, a dict, a callable loss, ...); such an
  object is no \<^verbatim>\<open>str\<close> and no \<^verbatim>\<open>list\<close>, and it has no method \<^verbatim>\<open>lower\<close>.
\<close>

datatype py_value =
    PNone
  | PBool bool
  | PInt int
  | is_PStr: PStr string
  | is_PList: PList "py_value list"
  | PTuple "py_value list"
  | PObject string

text \<open>
  \<^verbatim>\<open>str.lower\<close>. A string is a list of bytes here (UTF-8); the bytes of the letters
  \<^verbatim>\<open>A\<close> to \<^verbatim>\<open>Z\<close> are mapped to \<^verbatim>\<open>a\<close> to \<^verbatim>\<open>z\<close> and every other byte is kept. No
  character outside ASCII lowers to a character of \<^verbatim>\<open>acc\<close>, \<^verbatim>\<open>bal_acc\<close>, \<^verbatim>\<open>f1\<close>,
  \<^verbatim>\<open>bce\<close> or \<^verbatim>\<open>bceloss\<close>, so the membership tests of the source agree with the ones
  below.
\<close>

definition lower_char :: "char \<Rightarrow> char" where
  "lower_char c =
     (case map_of (zip ''ABCDEFGHIJKLMNOPQRSTUVWXYZ'' ''abcdefghijklmnopqrstuvwxyz'') c of
        Some d \<Rightarrow> d
      | None \<Rightarrow> c)"

definition lower :: "string \<Rightarrow> string" where
  "lower s = map lower_char s"

text \<open>\<^verbatim>\<open>m.lower()\<close> on an arbitrary value: only a \<^verbatim>\<open>str\<close> has the method.\<close>

fun py_lower :: "py_value \<Rightarrow> error + string" where
  "py_lower (PStr s) = Inr (lower s)"
| "py_lower v = Inl (AttributeError ''lower'')"

subsection \<open>Metrics and configuration objects\<close>

text \<open>
  The classes of \<^verbatim>\<open>neuralprophet.metrics\<close> that the constructor instantiates, as
  constructors: \<^verbatim>\<open>LossMetric(loss_func)\<close>, \<^verbatim>\<open>Accuracy()\<close>, \<^verbatim>\<open>Balanced_Accuracy()\<close>,
  \<^verbatim>\<open>F1Score()\<close>, \<^verbatim>\<open>ValueMetric(name)\<close> and
  \<^verbatim>\<open>MetricsCollection(metrics=..., value_metrics=...)\<close>.
\<close>

datatype metric = LossMetric py_value | Accuracy | Balanced_Accuracy | F1Score

datatype value_metric = ValueMetric string

datatype MetricsCollection =
  MetricsCollection (mc_metrics: "metric list") (mc_value_metrics: "value_metric list")

text \<open>The dict \<^verbatim>\<open>METRICS\<close> of \<^verbatim>\<open>__init__\<close>, in the order it is written.\<close>

definition METRICS :: "(string \<times> metric) list" where
  "METRICS = [(''acc'', Accuracy), (''bal_acc'', Balanced_Accuracy), (''f1'', F1Score)]"

definition METRICS_keys :: "string list" where
  "METRICS_keys = map fst METRICS"

text \<open>
  \<^verbatim>\<open>configure.Train\<close>: the two fields this file reads. A dict of keyword arguments is
  an association list in insertion order; \<^verbatim>\<open>kwargs[k] = v\<close> is \<open>AList.update k v\<close> and
  \<^verbatim>\<open>kwargs[k]\<close> is \<open>map_of kwargs k\<close>, a \<^verbatim>\<open>KeyError\<close> when it is \<open>None\<close>.
\<close>

record Train =
  loss_func :: py_value
  loss_func_name :: string

type_synonym kwargs = "(string \<times> py_value) list"

text \<open>
  The instance. The parent constructor leaves \<^verbatim>\<open>forecaster_locals\<close>, \<^verbatim>\<open>n_lags\<close>,
  \<^verbatim>\<open>n_forecasts\<close> and \<^verbatim>\<open>config_covar\<close> (the lag window of each covariate, by name);
  the subclass sets the other four attributes.
\<close>

record Classification_NP =
  forecaster_locals :: kwargs
  n_lags :: int
  n_forecasts :: int
  config_covar :: "(string \<times> int) list"
  classification_task :: bool
  name :: string
  config_train :: Train
  metrics :: "MetricsCollection option"

subsection \<open>The constructor\<close>

text \<open>
  The list comprehension \<^verbatim>\<open>[m.lower() in METRICS.keys() for m in collect_metrics]\<close>: it
  is built in full before \<^verbatim>\<open>all\<close> looks at it, so the first entry without \<^verbatim>\<open>lower\<close>
  raises whatever the entries before it are.
\<close>

fun lower_in_keys :: "py_value list \<Rightarrow> error + bool list" where
  "lower_in_keys [] = Inr []"
| "lower_in_keys (m # ms) =
     (case py_lower m of
        Inl e \<Rightarrow> Inl e
      | Inr s \<Rightarrow>
          (case lower_in_keys ms of
             Inl e \<Rightarrow> Inl e
           | Inr bs \<Rightarrow> Inr ((s \<in> set METRICS_keys) # bs)))"

text \<open>
  The chain \<^verbatim>\<open>if collect_metrics is None: ... elif collect_metrics is not False:\<close>; the
  result is the value of the local variable \<^verbatim>\<open>collect_metrics\<close> after it.
\<close>

definition unsupported :: error where
  "unsupported = ValueError ''Received unsupported argument for collect_metrics.''"

fun resolve_collect_metrics :: "py_value \<Rightarrow> error + py_value" where
  "resolve_collect_metrics PNone = Inr (PList [])"
| "resolve_collect_metrics (PBool True) = Inr (PList [PStr ''acc'', PStr ''bal_acc'', PStr ''f1''])"
| "resolve_collect_metrics (PStr s) =
     (if \<not> lower s \<in> set METRICS_keys then Inl unsupported else Inr (PList [PStr s]))"
| "resolve_collect_metrics (PList ms) =
     (case lower_in_keys ms of
        Inl e \<Rightarrow> Inl e
      | Inr bs \<Rightarrow> if \<not> list_all id bs then Inl unsupported else Inr (PList ms))"
| "resolve_collect_metrics (PBool False) = Inr (PBool False)"
| "resolve_collect_metrics v = Inl unsupported"

text \<open>\<^verbatim>\<open>[METRICS[m.lower()]() for m in collect_metrics]\<close>.\<close>

fun requested_metrics :: "py_value list \<Rightarrow> error + metric list" where
  "requested_metrics [] = Inr []"
| "requested_metrics (m # ms) =
     (case py_lower m of
        Inl e \<Rightarrow> Inl e
      | Inr s \<Rightarrow>
          (case map_of METRICS s of
             None \<Rightarrow> Inl (KeyError s)
           | Some c \<Rightarrow>
               (case requested_metrics ms of
                  Inl e \<Rightarrow> Inl e
                | Inr cs \<Rightarrow> Inr (c # cs))))"

text \<open>The last statement of \<^verbatim>\<open>__init__\<close>: \<^verbatim>\<open>self.metrics\<close> from the resolved value.\<close>

fun make_metrics :: "Train \<Rightarrow> py_value \<Rightarrow> error + MetricsCollection option" where
  "make_metrics cfg (PList ms) =
     (case requested_metrics ms of
        Inl e \<Rightarrow> Inl e
      | Inr cs \<Rightarrow> Inr (Some (MetricsCollection (LossMetric (loss_func cfg) # cs) [ValueMetric ''Loss''])))"
| "make_metrics cfg v = Inr None"

text \<open>
  \<^verbatim>\<open>__init__(self, loss_func="bce", *args, **kwargs)\<close>. \<open>self\<close> is the object as
  \<^verbatim>\<open>super().__init__(*args, **kwargs)\<close> left it, and \<open>from_kwargs\<close> is
  \<^verbatim>\<open>configure.from_kwargs(configure.Train, _)\<close>, which may raise. \<^verbatim>\<open>kwargs\<close> is the very
  dict \<^verbatim>\<open>self.forecaster_locals\<close>, so the assignment to \<^verbatim>\<open>kwargs["loss_func"]\<close> is
  seen through the attribute as well.
\<close>

definition init ::
  "(kwargs \<Rightarrow> error + Train) \<Rightarrow> py_value \<Rightarrow> Classification_NP \<Rightarrow> error + Classification_NP" where
  "init from_kwargs loss_func_arg self =
     (let kwargs = AList.update ''loss_func'' loss_func_arg (forecaster_locals self) in
      case map_of kwargs ''collect_metrics'' of
        None \<Rightarrow> Inl (KeyError ''collect_metrics'')
      | Some collect_metrics \<Rightarrow>
          (case from_kwargs kwargs of
             Inl e \<Rightarrow> Inl e
           | Inr cfg \<Rightarrow>
               (case resolve_collect_metrics collect_metrics of
                  Inl e \<Rightarrow> Inl e
                | Inr resolved \<Rightarrow>
                    (case make_metrics cfg resolved of
                       Inl e \<Rightarrow> Inl e
                     | Inr m \<Rightarrow>
                         Inr (self\<lparr>forecaster_locals := kwargs,
                                   classification_task := True,
                                   name := ''NeuralProphetBinaryClassifier'',
                                   config_train := cfg,
                                   metrics := m\<rparr>)))))"

subsection \<open>Training\<close>

text \<open>
  Modelled from the spec: \<^verbatim>\<open>df_utils.get_max_num_lags\<close> is not in this file. The spec
  has it "compute the maximum lag window across all configured covariates and the
  model's own autoregression order".
\<close>

definition get_max_num_lags :: "(string \<times> int) list \<Rightarrow> int \<Rightarrow> int" where
  "get_max_num_lags covar lags = fold max (map snd covar) lags"

text \<open>
  What \<^verbatim>\<open>fit\<close> does to the world, in order: the records it sends to the logger
  \<^verbatim>\<open>NP.forecaster\<close> and the call of \<^verbatim>\<open>super().fit\<close> with its five arguments
  (\<^verbatim>\<open>df\<close>, \<^verbatim>\<open>freq\<close>, \<^verbatim>\<open>validation_df\<close>, \<^verbatim>\<open>progress\<close>, \<^verbatim>\<open>minimal\<close>).
\<close>

datatype 'd fit_args = Fit_args 'd py_value "'d option" py_value py_value

datatype 'd event = Log_warning string | Log_info string | Super_fit "'d fit_args"

definition autoregression_warning :: string where
  "autoregression_warning =
     ''Warning! Auto-regression is activated, the model is using the classifier label as input. Please consider setting n_lags=0.''"

definition regressor_warning :: string where
  "regressor_warning = ''Warning! Please add lagged regressor as the input of the classifier''"

definition unsupported_loss :: "string \<Rightarrow> error" where
  "unsupported_loss l =
     NotImplementedError
       (''Currently NeuralProphet Classification module does not support '' @ l @
        '' loss function. Please, set loss function to 'bce' '')"

text \<open>
  \<^verbatim>\<open>fit\<close>. \<open>super_fit\<close> is the training routine of the parent class: from the
  instance and the arguments it gives what it returns or raises, and the instance as
  training left it. The result of \<open>fit\<close> is the list of events, what \<^verbatim>\<open>fit\<close> returns
  or raises, and the instance afterwards.
\<close>

definition fit ::
  "(Classification_NP \<Rightarrow> 'd fit_args \<Rightarrow> (error + 'r) \<times> Classification_NP) \<Rightarrow>
   Classification_NP \<Rightarrow> 'd fit_args \<Rightarrow> 'd event list \<times> (error + 'r) \<times> Classification_NP" where
  "fit super_fit self args =
     (let max_lags = get_max_num_lags (config_covar self) (n_lags self);
          w1 = (if n_lags self > 0 then [Log_warning autoregression_warning] else []);
          w2 = (if max_lags = 0 then [Log_warning regressor_warning] else [])
      in if lower (loss_func_name (config_train self)) \<in> set [''bce'', ''bceloss'']
         then (case super_fit self args of
                 (res, self') \<Rightarrow>
                   (w1 @ w2 @ [Log_info ''Classification with bce loss'', Super_fit args], res, self'))
         else (w1 @ w2, Inl (unsupported_loss (loss_func_name (config_train self))), self))"

subsection \<open>Data frames\<close>

text \<open>
  A \<^verbatim>\<open>float64\<close> is a finite real, an infinity or NaN. \<^verbatim>\<open>numpy.round\<close> with no decimals
  rounds to the nearest integer and a tie to the even one; the result is a
  \<^verbatim>\<open>float64\<close> again, and it is exact. A difference of two finite values is rounded
  to a \<^verbatim>\<open>float64\<close>; that rounding is the argument \<open>fl\<close> of \<open>np_sub\<close>.
\<close>

datatype float64 = Fin real | PInf | NInf | NaN

definition rint :: "real \<Rightarrow> int" where
  "rint x =
     (let f = \<lfloor>x\<rfloor>; d = x - of_int f in
      if d < 1 / 2 then f else if 1 / 2 < d then f + 1 else if even f then f else f + 1)"

fun np_round :: "float64 \<Rightarrow> float64" where
  "np_round (Fin x) = Fin (of_int (rint x))"
| "np_round v = v"

fun np_sub :: "(real \<Rightarrow> float64) \<Rightarrow> float64 \<Rightarrow> float64 \<Rightarrow> float64" where
  "np_sub fl (Fin a) (Fin b) = fl (a - b)"
| "np_sub fl NaN b = NaN"
| "np_sub fl a NaN = NaN"
| "np_sub fl PInf PInf = NaN"
| "np_sub fl NInf NInf = NaN"
| "np_sub fl PInf b = PInf"
| "np_sub fl NInf b = NInf"
| "np_sub fl (Fin a) PInf = NInf"
| "np_sub fl (Fin a) NInf = PInf"

text \<open>
  The table \<^verbatim>\<open>predict\<close> works on, after \<^verbatim>\<open>prep_or_copy_df\<close>: every row has the series
  identifier \<^verbatim>\<open>ID\<close> and the time stamp \<^verbatim>\<open>ds\<close>, and one \<^verbatim>\<open>float64\<close> for each of the
  other columns (\<^verbatim>\<open>y\<close>, \<^verbatim>\<open>yhat1\<close>, ..., the forecast components). \<open>columns\<close> has the
  labels of these other columns from left to right, \<open>vals\<close> the cells of the row in
  the same order.
\<close>

record row =
  ID :: string
  ds :: int
  vals :: "float64 list"

record frame =
  columns :: "string list"
  rows :: "row list"

text \<open>The cell of a row under a label; NaN where the row has none.\<close>

definition cell :: "string list \<Rightarrow> row \<Rightarrow> string \<Rightarrow> float64" where
  "cell cols r c = (case map_of (zip cols (vals r)) c of Some v \<Rightarrow> v | None \<Rightarrow> NaN)"

text \<open>
  \<^verbatim>\<open>df[c]\<close> where a \<^verbatim>\<open>Series\<close> is needed. A missing label is a \<^verbatim>\<open>KeyError\<close>. A label
  that two columns carry selects a two-column table, which neither of the two
  assignments of \<^verbatim>\<open>predict\<close> can store in one column: a \<^verbatim>\<open>ValueError\<close>.
\<close>

definition get_column :: "frame \<Rightarrow> string \<Rightarrow> error + float64 list" where
  "get_column d c =
     (if c \<notin> set (columns d) then Inl (KeyError c)
      else if count_list (columns d) c \<noteq> 1 then Inl (ValueError c)
      else Inr (map (\<lambda>r. cell (columns d) r c) (rows d)))"

text \<open>\<^verbatim>\<open>df.rename(columns={old: new})\<close>; a label that is not there is no error.\<close>

definition rename_column :: "string \<Rightarrow> string \<Rightarrow> frame \<Rightarrow> frame" where
  "rename_column old new d = d\<lparr>columns := map (\<lambda>c. if c = old then new else c) (columns d)\<rparr>"

text \<open>
  \<^verbatim>\<open>df[c] = values\<close>, with one value for each row: the column is overwritten where it
  is, or added as the last one. \<open>set_cell\<close> is what happens to one row.
\<close>

definition set_cell :: "string list \<Rightarrow> string \<Rightarrow> row \<Rightarrow> float64 \<Rightarrow> row" where
  "set_cell cols c r v =
     (if c \<in> set cols
      then r\<lparr>vals := map2 (\<lambda>l x. if l = c then v else x) cols (vals r)\<rparr>
      else r\<lparr>vals := vals r @ [v]\<rparr>)"

definition set_column :: "string \<Rightarrow> float64 list \<Rightarrow> frame \<Rightarrow> frame" where
  "set_column c values d =
     d\<lparr>columns := (if c \<in> set (columns d) then columns d else columns d @ [c]),
       rows := map2 (set_cell (columns d) c) (rows d) values\<rparr>"

text \<open>\<^verbatim>\<open>df["ID"] = df_name\<close>.\<close>

definition set_ID :: "string \<Rightarrow> frame \<Rightarrow> frame" where
  "set_ID k d = d\<lparr>rows := map (\<lambda>r. r\<lparr>ID := k\<rparr>) (rows d)\<rparr>"

text \<open>
  \<^verbatim>\<open>df.groupby("ID")\<close>, iterated: the keys are sorted (\<^verbatim>\<open>sort=True\<close> is the default of
  pandas), and each group has the rows of its key in the order of the table.
\<close>

definition groupby_ID :: "frame \<Rightarrow> (string \<times> frame) list" where
  "groupby_ID d =
     map (\<lambda>k. (k, d\<lparr>rows := filter (\<lambda>r. ID r = k) (rows d)\<rparr>)) (sort (remdups (map ID (rows d))))"

text \<open>
  \<^verbatim>\<open>pd.concat((a, b), ignore_index=True)\<close>. A table with neither rows nor columns is
  dropped. Tables with the same labels are stacked. Otherwise the labels of \<open>b\<close> that
  \<open>a\<close> lacks are added on the right and the missing cells are NaN; pandas cannot do
  that when a label is repeated.
\<close>

definition DataFrame :: frame where
  "DataFrame = \<lparr>columns = [], rows = []\<rparr>"

definition reindex :: "string list \<Rightarrow> string list \<Rightarrow> row \<Rightarrow> row" where
  "reindex old new r = r\<lparr>vals := map (cell old r) new\<rparr>"

definition pd_concat :: "frame \<Rightarrow> frame \<Rightarrow> error + frame" where
  "pd_concat a b =
     (if columns a = [] \<and> rows a = [] then Inr b
      else if columns a = columns b then Inr (a\<lparr>rows := rows a @ rows b\<rparr>)
      else if \<not> distinct (columns a) \<or> \<not> distinct (columns b)
      then Inl (InvalidIndexError ''Reindexing only valid with uniquely valued Index objects'')
      else (let cols = columns a @ filter (\<lambda>c. c \<notin> set (columns a)) (columns b)
            in Inr \<lparr>columns = cols,
                    rows = map (reindex (columns a) cols) (rows a) @
                           map (reindex (columns b) cols) (rows b)\<rparr>))"

subsection \<open>Prediction\<close>

text \<open>\<^verbatim>\<open>"yhat{}".format(i + 1)\<close> and the like: a number in decimal after a prefix.\<close>

fun decimal :: "nat \<Rightarrow> string" where
  "decimal n =
     (if n < 10 then [''0123456789'' ! n] else decimal (n div 10) @ [''0123456789'' ! (n mod 10)])"

declare decimal.simps [simp del]

definition label :: "string \<Rightarrow> nat \<Rightarrow> string" where
  "label prefix i = prefix @ decimal (i + 1)"

text \<open>
  The body of the inner loop up to the assignment of \<^verbatim>\<open>ID\<close>: from \<^verbatim>\<open>df_i\<close> and the
  step \<open>i\<close> of \<^verbatim>\<open>range(self.n_forecasts)\<close> to the new \<^verbatim>\<open>df_i\<close>.
\<close>

definition step :: "(real \<Rightarrow> float64) \<Rightarrow> string \<Rightarrow> nat \<Rightarrow> frame \<Rightarrow> error + frame" where
  "step fl df_name i df_i =
     (let d1 = rename_column (label ''yhat'' i) (label ''yhat_raw'' i) df_i in
      case get_column d1 (label ''yhat_raw'' i) of
        Inl e \<Rightarrow> Inl e
      | Inr yhat \<Rightarrow>
          (let d2 = set_column (label ''yhat'' i) (map np_round yhat) d1 in
           case get_column d2 (label ''yhat_raw'' i) of
             Inl e \<Rightarrow> Inl e
           | Inr raw \<Rightarrow>
               (case get_column d2 ''y'' of
                  Inl e \<Rightarrow> Inl e
                | Inr y \<Rightarrow>
                    Inr (set_ID df_name
                          (set_column (label ''residual'' i) (map2 (np_sub fl) raw y) d2)))))"

text \<open>
  The inner loop \<^verbatim>\<open>for i in range(self.n_forecasts)\<close> on the pair of \<^verbatim>\<open>df_pred\<close> and
  \<^verbatim>\<open>df_i\<close>: the call of \<^verbatim>\<open>pd.concat\<close> is the last statement of its body.
\<close>

fun forecast_loop ::
  "(real \<Rightarrow> float64) \<Rightarrow> string \<Rightarrow> nat list \<Rightarrow> frame \<Rightarrow> frame \<Rightarrow> error + frame \<times> frame" where
  "forecast_loop fl df_name [] df_pred df_i = Inr (df_pred, df_i)"
| "forecast_loop fl df_name (i # is) df_pred df_i =
     (case step fl df_name i df_i of
        Inl e \<Rightarrow> Inl e
      | Inr df_i' \<Rightarrow>
          (case pd_concat df_pred df_i' of
             Inl e \<Rightarrow> Inl e
           | Inr df_pred' \<Rightarrow> forecast_loop fl df_name is df_pred' df_i'))"

text \<open>The outer loop \<^verbatim>\<open>for df_name, df_i in df.groupby("ID")\<close> on \<^verbatim>\<open>df_pred\<close>.\<close>

fun group_loop ::
  "(real \<Rightarrow> float64) \<Rightarrow> int \<Rightarrow> (string \<times> frame) list \<Rightarrow> frame \<Rightarrow> error + frame" where
  "group_loop fl n [] df_pred = Inr df_pred"
| "group_loop fl n ((df_name, df_i) # groups) df_pred =
     (case forecast_loop fl df_name [0..<nat n] df_pred df_i of
        Inl e \<Rightarrow> Inl e
      | Inr (df_pred', df_i') \<Rightarrow> group_loop fl n groups df_pred')"

text \<open>
  \<^verbatim>\<open>predict\<close>. \<open>super_predict\<close> is the prediction routine of the parent class;
  \<open>prep_or_copy_df\<close> and \<open>return_df_in_original_format\<close> are the two functions of
  \<^verbatim>\<open>df_utils\<close>, the first giving the table with an \<^verbatim>\<open>ID\<close> column and the three flags
  that the second takes back. \<open>df_pred\<close> is the table that the two loops build.
\<close>

definition df_pred :: "(real \<Rightarrow> float64) \<Rightarrow> int \<Rightarrow> frame \<Rightarrow> error + frame" where
  "df_pred fl n d = group_loop fl n (groupby_ID d) DataFrame"

definition predict ::
  "(Classification_NP \<Rightarrow> 'a \<Rightarrow> error + 'b) \<Rightarrow>
   ('b \<Rightarrow> error + frame \<times> bool \<times> bool \<times> bool) \<Rightarrow>
   (frame \<Rightarrow> bool \<Rightarrow> bool \<Rightarrow> bool \<Rightarrow> error + 'c) \<Rightarrow>
   (real \<Rightarrow> float64) \<Rightarrow> Classification_NP \<Rightarrow> 'a \<Rightarrow> error + 'c" where
  "predict super_predict prep_or_copy_df return_df_in_original_format fl self d =
     (case super_predict self d of
        Inl e \<Rightarrow> Inl e
      | Inr forecast \<Rightarrow>
          (case prep_or_copy_df forecast of
             Inl e \<Rightarrow> Inl e
           | Inr (d', received_ID_col, received_single_time_series, received_dict) \<Rightarrow>
               (case df_pred fl (n_forecasts self) d' of
                  Inl e \<Rightarrow> Inl e
                | Inr p \<Rightarrow>
                    return_df_in_original_format p received_ID_col received_single_time_series
                      received_dict)))"

subsection \<open>Example objects\<close>

text \<open>
  Concrete collaborators and inputs for the examples below. \<open>example_from_kwargs\<close>
  builds the training configuration from the \<^verbatim>\<open>loss_func\<close> entry alone;
  \<open>example_self\<close> is a forecaster as its own constructor left it, given the value of
  \<^verbatim>\<open>collect_metrics\<close>; \<open>example_fitted\<close> is a classifier with a given autoregression
  order and loss name, and no covariates. \<open>example_super_fit\<close> returns a history and
  renames the instance, so that a call of it shows. On the prediction side the forecaster
  returns the table it is given, which has an \<^verbatim>\<open>ID\<close> column already, and the table is
  handed back as it is.
\<close>

definition example_from_kwargs :: "kwargs \<Rightarrow> error + Train" where
  "example_from_kwargs kw =
     (case map_of kw ''loss_func'' of
        None \<Rightarrow> Inl (KeyError ''loss_func'')
      | Some v \<Rightarrow> Inr \<lparr>loss_func = v, loss_func_name = (case v of PStr s \<Rightarrow> s | _ \<Rightarrow> ''custom'')\<rparr>)"

definition example_self :: "py_value \<Rightarrow> Classification_NP" where
  "example_self cm =
     \<lparr>forecaster_locals =
        [(''n_lags'', PInt 0), (''loss_func'', PStr ''Huber''), (''collect_metrics'', cm)],
      n_lags = 0, n_forecasts = 1, config_covar = [], classification_task = False,
      name = ''NeuralProphet'',
      config_train = \<lparr>loss_func = PStr ''Huber'', loss_func_name = ''Huber''\<rparr>,
      metrics = None\<rparr>"

definition example_fitted :: "int \<Rightarrow> string \<Rightarrow> Classification_NP" where
  "example_fitted lags l =
     \<lparr>forecaster_locals = [(''loss_func'', PStr l), (''collect_metrics'', PBool False)],
      n_lags = lags, n_forecasts = 1, config_covar = [], classification_task = True,
      name = ''NeuralProphetBinaryClassifier'',
      config_train = \<lparr>loss_func = PStr l, loss_func_name = l\<rparr>, metrics = None\<rparr>"

definition example_args :: "nat fit_args" where
  "example_args = Fit_args 7 (PStr ''auto'') None (PStr ''bar'') (PBool False)"

definition example_super_fit ::
  "Classification_NP \<Rightarrow> nat fit_args \<Rightarrow> (error + string) \<times> Classification_NP" where
  "example_super_fit self args = (Inr ''history'', self\<lparr>name := ''fitted''\<rparr>)"

definition example_super_predict :: "Classification_NP \<Rightarrow> frame \<Rightarrow> error + frame" where
  "example_super_predict self d = Inr d"

definition example_prep_or_copy_df :: "frame \<Rightarrow> error + frame \<times> bool \<times> bool \<times> bool" where
  "example_prep_or_copy_df d = Inr (d, True, length (remdups (map ID (rows d))) \<le> 1, False)"

definition example_return_df :: "frame \<Rightarrow> bool \<Rightarrow> bool \<Rightarrow> bool \<Rightarrow> error + frame" where
  "example_return_df p received_ID_col received_single_time_series received_dict = Inr p"

text \<open>Two series, \<^verbatim>\<open>B\<close> before \<^verbatim>\<open>A\<close>, with one forecast step.\<close>

definition example_forecast :: frame where
  "example_forecast =
     \<lparr>columns = [''y'', ''yhat1''],
      rows = [\<lparr>ID = ''B'', ds = 1, vals = [Fin 1, Fin (7 / 8)]\<rparr>,
              \<lparr>ID = ''A'', ds = 1, vals = [Fin 0, Fin (1 / 4)]\<rparr>,
              \<lparr>ID = ''B'', ds = 2, vals = [Fin 0, Fin (1 / 8)]\<rparr>,
              \<lparr>ID = ''A'', ds = 2, vals = [Fin 1, Fin (3 / 4)]\<rparr>]\<rparr>"

section \<open>Properties of the constructor\<close>

subsection \<open>Auxiliary facts\<close>

lemma map_of_update_other: "k \<noteq> k' \<Longrightarrow> map_of (AList.update k v kw) k' = map_of kw k'"
  by (simp add: update_conv')

lemma map_of_update_same: "map_of (AList.update k v kw) k = Some v"
  by (simp add: update_conv')

lemma init_resolved:
  assumes "map_of (forecaster_locals self) ''collect_metrics'' = Some cm"
    and "from_kwargs (AList.update ''loss_func'' l (forecaster_locals self)) = Inr cfg"
  shows "init from_kwargs l self =
     (case resolve_collect_metrics cm of
        Inl e \<Rightarrow> Inl e
      | Inr resolved \<Rightarrow>
          (case make_metrics cfg resolved of
             Inl e \<Rightarrow> Inl e
           | Inr m \<Rightarrow>
               Inr (self\<lparr>forecaster_locals := AList.update ''loss_func'' l (forecaster_locals self),
                         classification_task := True,
                         name := ''NeuralProphetBinaryClassifier'',
                         config_train := cfg,
                         metrics := m\<rparr>)))"
  using assms by (simp add: init_def map_of_update_other)

lemma init_raises:
  assumes "map_of (forecaster_locals self) ''collect_metrics'' = Some cm"
    and "resolve_collect_metrics cm = Inl e"
  shows "\<exists>e'. init from_kwargs l self = Inl e'"
  using assms by (simp add: init_def Let_def map_of_update_other split: sum.splits)

lemma lower_in_keys_strings:
  "lower_in_keys (map PStr ss) = Inr (map (\<lambda>s. lower s \<in> set METRICS_keys) ss)"
  by (induction ss) simp_all

lemma lower_in_keys_Inr:
  "lower_in_keys ms = Inr bs \<Longrightarrow> \<exists>ss. ms = map PStr ss \<and> bs = map (\<lambda>s. lower s \<in> set METRICS_keys) ss"
proof (induction ms arbitrary: bs)
  case Nil
  then show ?case by simp
next
  case (Cons m ms)
  from Cons.prems obtain s where m: "m = PStr s"
    by (cases m) simp_all
  from Cons.prems m obtain bs' where bs': "lower_in_keys ms = Inr bs'"
    and bs: "bs = (lower s \<in> set METRICS_keys) # bs'"
    by (auto split: sum.splits)
  from Cons.IH [OF bs'] obtain ss where "ms = map PStr ss"
    and "bs' = map (\<lambda>s. lower s \<in> set METRICS_keys) ss" by blast
  with m bs have "m # ms = map PStr (s # ss) \<and> bs = map (\<lambda>s. lower s \<in> set METRICS_keys) (s # ss)"
    by simp
  then show ?case by (rule exI)
qed

lemma keys_lookup: "s \<in> set METRICS_keys \<Longrightarrow> \<exists>c. map_of METRICS s = Some c"
  by (auto simp: METRICS_keys_def METRICS_def)

lemma requested_metrics_supported:
  "list_all (\<lambda>s. lower s \<in> set METRICS_keys) ss \<Longrightarrow>
   \<exists>cs. requested_metrics (map PStr ss) = Inr cs \<and>
        list_all2 (\<lambda>s c. map_of METRICS (lower s) = Some c) ss cs"
proof (induction ss)
  case Nil
  then show ?case by simp
next
  case (Cons s ss)
  then obtain cs where cs: "requested_metrics (map PStr ss) = Inr cs"
    and rel: "list_all2 (\<lambda>s c. map_of METRICS (lower s) = Some c) ss cs" by auto
  from Cons.prems obtain c where c: "map_of METRICS (lower s) = Some c"
    using keys_lookup by auto
  have "requested_metrics (map PStr (s # ss)) = Inr (c # cs)"
    using cs c by simp
  with rel c show ?case by auto
qed


subsection \<open>No metric names\<close>

text \<open>
  Claim C1 as it is stated fails. With \<^verbatim>\<open>collect_metrics\<close> equal to \<^verbatim>\<open>None\<close> or to the
  empty list the attribute \<^verbatim>\<open>metrics\<close> is not left unset: \<^verbatim>\<open>None\<close> is replaced by the
  empty list, the empty list passes the check of its entries, and every list, the
  empty one too, gets a \<^verbatim>\<open>MetricsCollection\<close>.
\<close>

theorem init_None_metrics_set:
  "map_sum id metrics (init example_from_kwargs (PStr ''bce'') (example_self PNone)) =
     Inr (Some (MetricsCollection [LossMetric (PStr ''bce'')] [ValueMetric ''Loss''])) \<and>
   map_sum id metrics (init example_from_kwargs (PStr ''bce'') (example_self (PList []))) =
     Inr (Some (MetricsCollection [LossMetric (PStr ''bce'')] [ValueMetric ''Loss'']))"
  by (simp add: init_def example_from_kwargs_def example_self_def)

text \<open>
  Claim C1, amended. For \<^verbatim>\<open>collect_metrics\<close> equal to \<^verbatim>\<open>None\<close> or to the empty list, and
  a training configuration that \<^verbatim>\<open>configure\<close> can build, construction succeeds and no
  accuracy metric is tracked, but the attribute \<^verbatim>\<open>metrics\<close> is set: it is the
  collection of the one loss metric of the configured loss function and the one value
  tracker \<^verbatim>\<open>Loss\<close>.
\<close>

theorem init_no_names_loss_only:
  assumes "map_of (forecaster_locals self) ''collect_metrics'' = Some cm"
    and "cm = PNone \<or> cm = PList []"
    and "from_kwargs (AList.update ''loss_func'' l (forecaster_locals self)) = Inr cfg"
  shows "\<exists>c. init from_kwargs l self = Inr c \<and>
             metrics c = Some (MetricsCollection [LossMetric (loss_func cfg)] [ValueMetric ''Loss''])"
  using assms(2) by (auto simp: init_resolved [of self cm from_kwargs l cfg, OF assms(1) assms(3)])

text \<open>The amended claim at \<^verbatim>\<open>collect_metrics=None\<close>.\<close>

theorem init_no_names_loss_only_witness:
  "\<exists>c. init example_from_kwargs (PStr ''bce'') (example_self PNone) = Inr c \<and>
       metrics c = Some (MetricsCollection [LossMetric (PStr ''bce'')] [ValueMetric ''Loss''])"
  using init_no_names_loss_only [of "example_self PNone" PNone example_from_kwargs "PStr ''bce''"
      "\<lparr>loss_func = PStr ''bce'', loss_func_name = ''bce''\<rparr>"]
  by (simp add: example_from_kwargs_def example_self_def)

subsection \<open>Booleans\<close>

text \<open>
  Claim C6. For \<^verbatim>\<open>collect_metrics=True\<close> the names are resolved to all the keys of
  \<^verbatim>\<open>METRICS\<close>, which are \<^verbatim>\<open>acc\<close>, \<^verbatim>\<open>bal_acc\<close> and \<^verbatim>\<open>f1\<close>, and the collection has
  the loss metric and the three metrics of these names. For \<^verbatim>\<open>collect_metrics=False\<close>
  the attribute \<^verbatim>\<open>metrics\<close> is \<^verbatim>\<open>None\<close>: nothing is tracked. In both cases the
  constructor returns, when \<^verbatim>\<open>configure\<close> can build the training configuration.
\<close>

theorem init_bool:
  assumes "map_of (forecaster_locals self) ''collect_metrics'' = Some (PBool b)"
    and "from_kwargs (AList.update ''loss_func'' l (forecaster_locals self)) = Inr cfg"
  shows "(\<exists>c. init from_kwargs l self = Inr c \<and>
              metrics c =
                (if b
                 then Some (MetricsCollection
                        [LossMetric (loss_func cfg), Accuracy, Balanced_Accuracy, F1Score]
                        [ValueMetric ''Loss''])
                 else None)) \<and>
         (b \<longrightarrow> resolve_collect_metrics (PBool b) = Inr (PList (map PStr METRICS_keys)))"
  by (cases b) (simp_all add: init_resolved [of self "PBool b" from_kwargs l cfg, OF assms] METRICS_def METRICS_keys_def lower_def lower_char_def)

text \<open>Claim C6 at \<^verbatim>\<open>True\<close> and at \<^verbatim>\<open>False\<close>.\<close>

theorem init_bool_witness:
  "(\<exists>c. init example_from_kwargs (PStr ''bce'') (example_self (PBool True)) = Inr c \<and>
        metrics c = Some (MetricsCollection
                      [LossMetric (PStr ''bce''), Accuracy, Balanced_Accuracy, F1Score]
                      [ValueMetric ''Loss''])) \<and>
   resolve_collect_metrics (PBool True) = Inr (PList (map PStr METRICS_keys)) \<and>
   (\<exists>c. init example_from_kwargs (PStr ''bce'') (example_self (PBool False)) = Inr c \<and>
        metrics c = None)"
  using init_bool [of "example_self (PBool True)" True example_from_kwargs "PStr ''bce''"
      "\<lparr>loss_func = PStr ''bce'', loss_func_name = ''bce''\<rparr>"]
    init_bool [of "example_self (PBool False)" False example_from_kwargs "PStr ''bce''"
      "\<lparr>loss_func = PStr ''bce'', loss_func_name = ''bce''\<rparr>"]
  by (simp add: example_from_kwargs_def example_self_def)

subsection \<open>Supported names\<close>

text \<open>
  Claim C7. Let \<open>ss\<close> be names that are keys of \<^verbatim>\<open>METRICS\<close> once in lower case, given
  as a list or, for a single name, as a string. Then construction succeeds, and the
  collection holds the loss metric of the configured loss function first, then one
  metric for each name of \<open>ss\<close> in order, the one \<^verbatim>\<open>METRICS\<close> has for the name in lower
  case, and the value tracker \<^verbatim>\<open>Loss\<close> alone.
\<close>

theorem init_supported_names:
  assumes "map_of (forecaster_locals self) ''collect_metrics'' = Some cm"
    and "from_kwargs (AList.update ''loss_func'' l (forecaster_locals self)) = Inr cfg"
    and "list_all (\<lambda>s. lower s \<in> set METRICS_keys) ss"
    and "cm = PList (map PStr ss) \<or> (\<exists>s. cm = PStr s \<and> ss = [s])"
  shows "\<exists>c cs. init from_kwargs l self = Inr c \<and>
           list_all2 (\<lambda>s m. map_of METRICS (lower s) = Some m) ss cs \<and>
           metrics c = Some (MetricsCollection (LossMetric (loss_func cfg) # cs) [ValueMetric ''Loss''])"
proof -
  from requested_metrics_supported [OF assms(3)] obtain cs
    where cs: "requested_metrics (map PStr ss) = Inr cs"
      and rel: "list_all2 (\<lambda>s m. map_of METRICS (lower s) = Some m) ss cs" by blast
  have all: "list_all id (map (\<lambda>s. lower s \<in> set METRICS_keys) ss)"
    using assms(3) by (simp add: list_all_iff)
  from assms(4) have "\<exists>r. resolve_collect_metrics cm = Inr (PList (map PStr ss))"
  proof
    assume "cm = PList (map PStr ss)"
    then show ?thesis using all by (simp add: lower_in_keys_strings)
  next
    assume "\<exists>s. cm = PStr s \<and> ss = [s]"
    then show ?thesis using assms(3) by auto
  qed
  then have "resolve_collect_metrics cm = Inr (PList (map PStr ss))" by simp
  then have "\<exists>c. init from_kwargs l self = Inr c \<and>
      metrics c = Some (MetricsCollection (LossMetric (loss_func cfg) # cs) [ValueMetric ''Loss''])"
    using cs by (simp add: init_resolved [of self cm from_kwargs l cfg, OF assms(1) assms(2)])
  with rel show ?thesis by blast
qed

text \<open>Claim C7 at the list \<^verbatim>\<open>["F1", "Acc"]\<close> and at the string \<^verbatim>\<open>"BAL_ACC"\<close>.\<close>

theorem init_supported_names_witness:
  "(\<exists>c. init example_from_kwargs (PStr ''bce'') (example_self (PList [PStr ''F1'', PStr ''Acc''])) = Inr c \<and>
        metrics c = Some (MetricsCollection [LossMetric (PStr ''bce''), F1Score, Accuracy] [ValueMetric ''Loss''])) \<and>
   (\<exists>c. init example_from_kwargs (PStr ''bce'') (example_self (PStr ''BAL_ACC'')) = Inr c \<and>
        metrics c = Some (MetricsCollection [LossMetric (PStr ''bce''), Balanced_Accuracy] [ValueMetric ''Loss'']))"
  using init_supported_names [of "example_self (PList [PStr ''F1'', PStr ''Acc''])"
      "PList [PStr ''F1'', PStr ''Acc'']" example_from_kwargs "PStr ''bce''"
      "\<lparr>loss_func = PStr ''bce'', loss_func_name = ''bce''\<rparr>" "[''F1'', ''Acc'']"]
    init_supported_names [of "example_self (PStr ''BAL_ACC'')"
      "PStr ''BAL_ACC''" example_from_kwargs "PStr ''bce''"
      "\<lparr>loss_func = PStr ''bce'', loss_func_name = ''bce''\<rparr>" "[''BAL_ACC'']"]
  by (simp add: example_from_kwargs_def example_self_def METRICS_keys_def METRICS_def
      lower_def lower_char_def list_all2_Cons1)


subsection \<open>Unsupported values\<close>

lemma all_strings: "list_all is_PStr ms \<Longrightarrow> \<exists>ss. ms = map PStr ss"
proof (induction ms)
  case Nil
  then show ?case by simp
next
  case (Cons m ms)
  then obtain s ss where "m = PStr s" and "ms = map PStr ss"
    by (auto simp: is_PStr_def)
  then have "m # ms = map PStr (s # ss)" by simp
  then show ?case by (rule exI)
qed

lemma resolve_bad_list:
  assumes "\<exists>m\<in>set ms. \<forall>s. m = PStr s \<longrightarrow> lower s \<notin> set METRICS_keys"
  shows "\<exists>e. resolve_collect_metrics (PList ms) = Inl e"
proof (cases "lower_in_keys ms")
  case (Inl e)
  then show ?thesis by simp
next
  case (Inr bs)
  from lower_in_keys_Inr [OF Inr] obtain ss where ms: "ms = map PStr ss"
    and bs: "bs = map (\<lambda>s. lower s \<in> set METRICS_keys) ss" by blast
  from assms ms have "\<not> list_all id bs"
    by (auto simp: bs list_all_iff)
  with Inr show ?thesis by simp
qed

lemma resolve_bad_names:
  assumes "\<exists>s\<in>set ss. lower s \<notin> set METRICS_keys"
  shows "resolve_collect_metrics (PList (map PStr ss)) = Inl unsupported"
  using assms by (auto simp: lower_in_keys_strings list_all_iff)

text \<open>
  Claim C5. Let \<^verbatim>\<open>collect_metrics\<close> be a string that is no key of \<^verbatim>\<open>METRICS\<close> in lower
  case, or a list with an entry that is not such a string, or a value that is neither
  \<^verbatim>\<open>None\<close> nor a \<^verbatim>\<open>bool\<close>, a \<^verbatim>\<open>str\<close> or a \<^verbatim>\<open>list\<close>. Then the constructor raises
  and gives no instance. When \<^verbatim>\<open>configure\<close> can build the training configuration and
  the entries of a list are all strings, what it raises is the \<^verbatim>\<open>ValueError\<close> for an
  unsupported argument. (An entry that is no string has no \<^verbatim>\<open>lower\<close>, and the error
  is the \<^verbatim>\<open>AttributeError\<close> of that call.)
\<close>

theorem init_unsupported:
  assumes "map_of (forecaster_locals self) ''collect_metrics'' = Some cm"
    and "(\<exists>s. cm = PStr s \<and> lower s \<notin> set METRICS_keys) \<or>
         (\<exists>ms. cm = PList ms \<and> (\<exists>m\<in>set ms. \<forall>s. m = PStr s \<longrightarrow> lower s \<notin> set METRICS_keys)) \<or>
         (cm \<noteq> PNone \<and> (\<forall>b. cm \<noteq> PBool b) \<and> \<not> is_PStr cm \<and> \<not> is_PList cm)"
  shows "(\<exists>e. init from_kwargs l self = Inl e) \<and>
         (\<forall>cfg. from_kwargs (AList.update ''loss_func'' l (forecaster_locals self)) = Inr cfg \<longrightarrow>
            (\<forall>ms. cm = PList ms \<longrightarrow> list_all is_PStr ms) \<longrightarrow>
            init from_kwargs l self = Inl unsupported)"
proof -
  have bad: "\<exists>e. resolve_collect_metrics cm = Inl e"
    using assms(2) resolve_bad_list by (cases cm) auto
  have strings: "resolve_collect_metrics cm = Inl unsupported"
    if "\<forall>ms. cm = PList ms \<longrightarrow> list_all is_PStr ms"
  proof (cases cm)
    case (PList ms)
    with that have "list_all is_PStr ms" by simp
    from all_strings [OF this] obtain ss where ms: "ms = map PStr ss" by blast
    with assms(2) PList have "\<exists>s\<in>set ss. lower s \<notin> set METRICS_keys" by auto
    from resolve_bad_names [OF this] show ?thesis by (simp add: PList ms)
  qed (use assms(2) in auto)
  from bad obtain e where "resolve_collect_metrics cm = Inl e" by blast
  from init_raises [OF assms(1) this] have "\<exists>e. init from_kwargs l self = Inl e" .
  moreover have "init from_kwargs l self = Inl unsupported"
    if "from_kwargs (AList.update ''loss_func'' l (forecaster_locals self)) = Inr cfg"
      and "\<forall>ms. cm = PList ms \<longrightarrow> list_all is_PStr ms" for cfg
    using strings [OF that(2)]
    by (simp add: init_resolved [of self cm from_kwargs l cfg, OF assms(1) that(1)])
  ultimately show ?thesis by blast
qed

text \<open>Claim C5 at \<^verbatim>\<open>"xyz"\<close>, at \<^verbatim>\<open>["acc", "xyz"]\<close> and at \<^verbatim>\<open>42\<close>.\<close>

theorem init_unsupported_witness:
  "init example_from_kwargs (PStr ''bce'') (example_self (PStr ''xyz'')) = Inl unsupported \<and>
   init example_from_kwargs (PStr ''bce'') (example_self (PList [PStr ''acc'', PStr ''xyz''])) = Inl unsupported \<and>
   init example_from_kwargs (PStr ''bce'') (example_self (PInt 42)) = Inl unsupported"
  using init_unsupported [of "example_self (PStr ''xyz'')" "PStr ''xyz''" example_from_kwargs "PStr ''bce''"]
    init_unsupported [of "example_self (PList [PStr ''acc'', PStr ''xyz''])"
      "PList [PStr ''acc'', PStr ''xyz'']" example_from_kwargs "PStr ''bce''"]
    init_unsupported [of "example_self (PInt 42)" "PInt 42" example_from_kwargs "PStr ''bce''"]
  by (simp add: example_from_kwargs_def example_self_def METRICS_keys_def METRICS_def
      lower_def lower_char_def)

subsection \<open>The loss function and the task flag\<close>

text \<open>
  Claim C10. After a construction that succeeds with the loss function \<open>l\<close>, the
  resolved configuration values \<^verbatim>\<open>forecaster_locals\<close> have \<open>l\<close> under \<^verbatim>\<open>loss_func\<close> and
  are otherwise those of the forecaster, the training configuration of the instance
  is the one \<^verbatim>\<open>configure\<close> builds from these values, and \<^verbatim>\<open>classification_task\<close> is
  true.
\<close>

theorem init_overrides_loss_func:
  assumes "init from_kwargs l self = Inr c"
  shows "map_of (forecaster_locals c) ''loss_func'' = Some l \<and>
         (\<forall>k. k \<noteq> ''loss_func'' \<longrightarrow> map_of (forecaster_locals c) k = map_of (forecaster_locals self) k) \<and>
         from_kwargs (forecaster_locals c) = Inr (config_train c) \<and>
         classification_task c"
  using assms
  by (auto simp: init_def Let_def map_of_update_other map_of_update_same
      split: option.splits sum.splits)

text \<open>
  Claim C10 at a forecaster whose own loss function is \<^verbatim>\<open>Huber\<close>, constructed with
  \<^verbatim>\<open>bce\<close>.
\<close>

theorem init_overrides_loss_func_witness:
  "map_of (forecaster_locals (example_self PNone)) ''loss_func'' = Some (PStr ''Huber'') \<and>
   (\<exists>c. init example_from_kwargs (PStr ''bce'') (example_self PNone) = Inr c \<and>
        map_of (forecaster_locals c) ''loss_func'' = Some (PStr ''bce'') \<and>
        map_of (forecaster_locals c) ''collect_metrics'' = Some PNone \<and>
        config_train c = \<lparr>loss_func = PStr ''bce'', loss_func_name = ''bce''\<rparr> \<and>
        classification_task c)"
proof -
  have i: "init example_from_kwargs (PStr ''bce'') (example_self PNone) =
    Inr ((example_self PNone)
      \<lparr>forecaster_locals := AList.update ''loss_func'' (PStr ''bce'') (forecaster_locals (example_self PNone)),
       classification_task := True, name := ''NeuralProphetBinaryClassifier'',
       config_train := \<lparr>loss_func = PStr ''bce'', loss_func_name = ''bce''\<rparr>,
       metrics := Some (MetricsCollection [LossMetric (PStr ''bce'')] [ValueMetric ''Loss''])\<rparr>)"
    by (simp add: init_def example_from_kwargs_def example_self_def)
  from init_overrides_loss_func [OF i] show ?thesis
    by (simp add: i) (simp add: example_self_def)
qed

section \<open>Properties of training\<close>

subsection \<open>A loss function other than binary cross-entropy\<close>

text \<open>
  Claim C3. When the configured loss name in lower case is neither \<^verbatim>\<open>bce\<close> nor
  \<^verbatim>\<open>bceloss\<close>, \<^verbatim>\<open>fit\<close> raises the \<^verbatim>\<open>NotImplementedError\<close> whose message has that
  name in it. The training routine of the parent is not called: no call of it is among
  the events, and the result is the same whatever that routine is. The instance is the
  one \<^verbatim>\<open>fit\<close> was given.
\<close>

theorem fit_unsupported_loss:
  assumes "lower (loss_func_name (config_train self)) \<notin> set [''bce'', ''bceloss'']"
  shows "\<exists>ev. fit super_fit self args =
             (ev, Inl (unsupported_loss (loss_func_name (config_train self))), self) \<and>
           (\<forall>a. Super_fit a \<notin> set ev) \<and>
           fit other_fit self args = fit super_fit self args"
  using assms by (simp add: fit_def Let_def)

text \<open>Claim C3 at the loss name \<^verbatim>\<open>MSE\<close>, with no lagged input.\<close>

theorem fit_unsupported_loss_witness:
  "fit example_super_fit (example_fitted 0 ''MSE'')
      example_args =
     ([Log_warning regressor_warning],
      Inl (NotImplementedError
        (''Currently NeuralProphet Classification module does not support '' @ ''MSE'' @
         '' loss function. Please, set loss function to 'bce' '')),
      example_fitted 0 ''MSE'')"
  using fit_unsupported_loss [of "example_fitted 0 ''MSE''" example_super_fit
      example_args example_super_fit]
  by (auto simp: example_fitted_def lower_def lower_char_def unsupported_loss_def
      fit_def get_max_num_lags_def)

subsection \<open>The two warnings\<close>

text \<open>
  Claim C9 as it is stated fails: it speaks of every call with \<^verbatim>\<open>n_lags > 0\<close>, and a
  call with \<^verbatim>\<open>n_lags = 1\<close> and the loss name \<^verbatim>\<open>mse\<close> warns and then raises; the parent
  is not called.
\<close>

theorem fit_raises_with_lags:
  "fit example_super_fit (example_fitted 1 ''mse'')
      example_args =
     ([Log_warning autoregression_warning], Inl (unsupported_loss ''mse''), example_fitted 1 ''mse'')"
  by (simp add: fit_def example_fitted_def lower_def lower_char_def get_max_num_lags_def)

text \<open>
  Claim C9, amended. When the configured loss name in lower case is \<^verbatim>\<open>bce\<close> or
  \<^verbatim>\<open>bceloss\<close>, and \<^verbatim>\<open>n_lags\<close> is greater than 0 or the maximum lag window is 0, then
  \<^verbatim>\<open>fit\<close> logs at least one of the two warnings and nothing worse, calls the training
  routine of the parent with the arguments it was given, and returns what that routine
  returns (or raises what it raises), the instance being as that routine left it.
\<close>

theorem fit_warns_and_delegates:
  assumes "lower (loss_func_name (config_train self)) \<in> set [''bce'', ''bceloss'']"
    and "n_lags self > 0 \<or> get_max_num_lags (config_covar self) (n_lags self) = 0"
  shows "\<exists>ws. fit super_fit self args =
             (map Log_warning ws @ [Log_info ''Classification with bce loss'', Super_fit args],
              fst (super_fit self args), snd (super_fit self args)) \<and>
           ws \<noteq> [] \<and> set ws \<subseteq> {autoregression_warning, regressor_warning}"
proof -
  let ?ws = "(if n_lags self > 0 then [autoregression_warning] else []) @
             (if get_max_num_lags (config_covar self) (n_lags self) = 0 then [regressor_warning] else [])"
  have "fit super_fit self args =
      (map Log_warning ?ws @ [Log_info ''Classification with bce loss'', Super_fit args],
       fst (super_fit self args), snd (super_fit self args))"
    using assms(1) by (simp add: fit_def Let_def split: prod.splits)
  moreover have "?ws \<noteq> []" using assms(2) by auto
  moreover have "set ?ws \<subseteq> {autoregression_warning, regressor_warning}" by auto
  ultimately show ?thesis by blast
qed

text \<open>The amended claim at the loss name \<^verbatim>\<open>BCE\<close>, with no lagged input.\<close>

theorem fit_warns_and_delegates_witness:
  "fit example_super_fit (example_fitted 0 ''BCE'')
      example_args =
     ([Log_warning regressor_warning, Log_info ''Classification with bce loss'',
       Super_fit example_args],
      Inr ''history'', (example_fitted 0 ''BCE'')\<lparr>name := ''fitted''\<rparr>)"
  using fit_warns_and_delegates [of "example_fitted 0 ''BCE''" example_super_fit
      example_args]
  by (auto simp: example_fitted_def lower_def lower_char_def example_super_fit_def
      fit_def get_max_num_lags_def)

section \<open>Properties of prediction\<close>

subsection \<open>Auxiliary facts\<close>

text \<open>
  A step of the inner loop keeps the rows of the group in place and writes the key
  of the group into \<^verbatim>\<open>ID\<close>; the labels it leaves depend on the labels it finds alone.
  With one forecast step, \<^verbatim>\<open>df_pred\<close> is therefore the groups one after the other.
\<close>

lemma map_through:
  assumes "map f xs = map f ys"
  shows "map (\<lambda>x. g (f x)) xs = map (\<lambda>x. g (f x)) ys"
proof -
  have "map g (map f xs) = map g (map f ys)" using assms by simp
  then show ?thesis by (simp add: o_def)
qed

lemma get_column_length: "get_column d c = Inr vs \<Longrightarrow> length vs = length (rows d)"
  by (auto simp: get_column_def split: if_splits)

lemma set_column_keys:
  "length vs = length (rows d) \<Longrightarrow>
   map (\<lambda>r. (ID r, ds r)) (rows (set_column c vs d)) = map (\<lambda>r. (ID r, ds r)) (rows d)"
  by (auto simp: set_column_def set_cell_def list_eq_iff_nth_eq)

lemma set_column_length: "length vs = length (rows d) \<Longrightarrow> length (rows (set_column c vs d)) = length (rows d)"
  by (auto simp: set_column_def)

lemma set_column_columns:
  "columns (set_column c vs d) = (if c \<in> set (columns d) then columns d else columns d @ [c])"
  by (simp add: set_column_def)

lemma step_keys:
  assumes "step fl k i g = Inr g'"
  shows "map (\<lambda>r. (ID r, ds r)) (rows g') = map (\<lambda>r. (k, ds r)) (rows g)"
proof -
  let ?d1 = "rename_column (label ''yhat'' i) (label ''yhat_raw'' i) g"
  from assms obtain yhat where yhat: "get_column ?d1 (label ''yhat_raw'' i) = Inr yhat"
    by (auto simp: step_def Let_def split: sum.splits)
  let ?d2 = "set_column (label ''yhat'' i) (map np_round yhat) ?d1"
  from assms yhat obtain raw y where raw: "get_column ?d2 (label ''yhat_raw'' i) = Inr raw"
    and y: "get_column ?d2 ''y'' = Inr y"
    and g': "g' = set_ID k (set_column (label ''residual'' i) (map2 (np_sub fl) raw y) ?d2)"
    by (auto simp: step_def Let_def split: sum.splits)
  have l1: "length (map np_round yhat) = length (rows ?d1)"
    using get_column_length [OF yhat] by simp
  have l2: "length (map2 (np_sub fl) raw y) = length (rows ?d2)"
    using get_column_length [OF raw] get_column_length [OF y] by simp
  have "map (\<lambda>r. (ID r, ds r)) (rows (set_column (label ''residual'' i) (map2 (np_sub fl) raw y) ?d2)) =
        map (\<lambda>r. (ID r, ds r)) (rows g)"
    using set_column_keys [OF l2] set_column_keys [OF l1] by (simp add: rename_column_def)
  then have "map snd (map (\<lambda>r. (ID r, ds r)) (rows (set_column (label ''residual'' i) (map2 (np_sub fl) raw y) ?d2))) =
        map snd (map (\<lambda>r. (ID r, ds r)) (rows g))"
    by (rule arg_cong)
  then have "map ds (rows (set_column (label ''residual'' i) (map2 (np_sub fl) raw y) ?d2)) = map ds (rows g)"
    by (simp add: o_def)
  then have "map (\<lambda>r. (k, ds r)) (rows (set_column (label ''residual'' i) (map2 (np_sub fl) raw y) ?d2)) =
      map (\<lambda>r. (k, ds r)) (rows g)"
    by (rule map_through)
  then show ?thesis
    by (simp add: g' set_ID_def o_def)
qed

lemma step_columns:
  assumes "step fl k i g = Inr g'" and "step fl k' i h = Inr h'" and "columns g = columns h"
  shows "columns g' = columns h'"
  using assms
  by (auto simp: step_def Let_def set_column_columns set_ID_def rename_column_def split: sum.splits)

lemma concat_rows:
  assumes "pd_concat p g = Inr p'" and "p = DataFrame \<or> columns p = columns g"
  shows "rows p' = rows p @ rows g \<and> columns p' = columns g"
  using assms by (auto simp: pd_concat_def DataFrame_def split: if_splits)


lemma forecast_loop_one:
  assumes "forecast_loop fl k [0] p g = Inr (p', g')"
  shows "step fl k 0 g = Inr g' \<and> pd_concat p g' = Inr p'"
  using assms by (auto split: sum.splits)

lemma group_loop_one_gen:
  assumes "group_loop fl 1 (map (\<lambda>k. (k, d\<lparr>rows := filter (\<lambda>r. ID r = k) (rows d)\<rparr>)) ks) p = Inr out"
    and "p = DataFrame \<or> (\<exists>k g g'. step fl k 0 g = Inr g' \<and> columns g = columns d \<and> columns p = columns g')"
    and "\<And>k g'. step fl k 0 (d\<lparr>rows := filter (\<lambda>r. ID r = k) (rows d)\<rparr>) = Inr g' \<Longrightarrow>
           map (P (columns g')) (rows g') = map (Q k) (filter (\<lambda>r. ID r = k) (rows d))"
  shows "map (P (columns out)) (rows out) =
         map (P (columns p)) (rows p) @
         concat (map (\<lambda>k. map (Q k) (filter (\<lambda>r. ID r = k) (rows d))) ks)"
  using assms(1,2)
proof (induction ks arbitrary: p)
  case Nil
  then show ?case by simp
next
  case (Cons k ks)
  let ?g = "d\<lparr>rows := filter (\<lambda>r. ID r = k) (rows d)\<rparr>"
  let ?groups = "map (\<lambda>k. (k, d\<lparr>rows := filter (\<lambda>r. ID r = k) (rows d)\<rparr>)) ks"
  from Cons.prems(1) obtain p1 g1 where loop: "forecast_loop fl k [0] p ?g = Inr (p1, g1)"
    and rest: "group_loop fl 1 ?groups p1 = Inr out"
    by (auto split: sum.splits)
  from forecast_loop_one [OF loop] have st: "step fl k 0 ?g = Inr g1" and cc: "pd_concat p g1 = Inr p1"
    by simp_all
  have cols: "p = DataFrame \<or> columns p = columns g1"
  proof (cases "p = DataFrame")
    case True
    then show ?thesis by simp
  next
    case False
    with Cons.prems(2) obtain k' g g' where "step fl k' 0 g = Inr g'" and "columns g = columns d"
      and "columns p = columns g'" by blast
    with step_columns [OF st, of k' g g'] show ?thesis by simp
  qed
  from concat_rows [OF cc cols] have r1: "rows p1 = rows p @ rows g1" and c1: "columns p1 = columns g1"
    by simp_all
  have inv: "p1 = DataFrame \<or> (\<exists>k g g'. step fl k 0 g = Inr g' \<and> columns g = columns d \<and> columns p1 = columns g')"
    using st c1 by (intro disjI2 exI [of _ k] exI [of _ ?g] exI [of _ g1]) simp
  have old: "map (P (columns p1)) (rows p) = map (P (columns p)) (rows p)"
    using cols c1 by (auto simp: DataFrame_def)
  from Cons.IH [OF rest inv] assms(3) [OF st] show ?case
    by (simp add: r1 c1 old [unfolded c1])
qed

lemma df_pred_one_gen:
  assumes "df_pred fl 1 d = Inr out"
    and "\<And>k g'. step fl k 0 (d\<lparr>rows := filter (\<lambda>r. ID r = k) (rows d)\<rparr>) = Inr g' \<Longrightarrow>
           map (P (columns g')) (rows g') = map (Q k) (filter (\<lambda>r. ID r = k) (rows d))"
  shows "map (P (columns out)) (rows out) =
         concat (map (\<lambda>k. map (Q k) (filter (\<lambda>r. ID r = k) (rows d)))
           (sort (remdups (map ID (rows d)))))"
  using group_loop_one_gen [of fl d "sort (remdups (map ID (rows d)))" DataFrame out P Q] assms
  by (simp add: df_pred_def groupby_ID_def DataFrame_def)

lemma grouped_filter_gen:
  assumes "distinct ks" and "\<And>k r. fst (Q k r) = k"
  shows "filter (\<lambda>p. fst p = k) (concat (map (\<lambda>k. map (Q k) (filter (\<lambda>r. ID r = k) rs)) ks)) =
     (if k \<in> set ks then map (Q k) (filter (\<lambda>r. ID r = k) rs) else [])"
  using assms(1) by (induction ks) (auto simp: filter_map o_def filter_empty_conv assms(2))

lemma df_pred_one:
  assumes "df_pred fl 1 d = Inr out"
  shows "map (\<lambda>r. (ID r, ds r)) (rows out) =
         concat (map (\<lambda>k. map (\<lambda>r. (k, ds r)) (filter (\<lambda>r. ID r = k) (rows d)))
           (sort (remdups (map ID (rows d)))))"
  by (rule df_pred_one_gen [OF assms, of "\<lambda>cols r. (ID r, ds r)" "\<lambda>k r. (k, ds r)"])
    (simp add: step_keys)

lemma grouped_sorted:
  "sorted ks \<Longrightarrow>
   sorted (map fst (concat (map (\<lambda>k. map (\<lambda>r. (k, ds r)) (filter (\<lambda>r. ID r = k) rs)) ks)))"
  by (induction ks) (auto simp: sorted_append o_def map_replicate_const)

lemma filter_no_key: "k \<notin> ID ` set rs \<Longrightarrow> filter (\<lambda>r. ID r = k) rs = []"
  by (auto simp: filter_empty_conv)

lemma df_pred_one_sorted:
  assumes "df_pred fl 1 d = Inr out"
  shows "sorted (map ID (rows out))"
proof -
  have "map ID (rows out) = map fst (map (\<lambda>r. (ID r, ds r)) (rows out))" by (simp add: o_def)
  then show ?thesis
    using grouped_sorted [of "sort (remdups (map ID (rows d)))" "rows d"]
    by (simp add: df_pred_one [OF assms])
qed

lemma df_pred_one_series:
  assumes "df_pred fl 1 d = Inr out"
  shows "map ds (filter (\<lambda>r. ID r = k) (rows out)) = map ds (filter (\<lambda>r. ID r = k) (rows d))"
proof -
  have "map ds (filter (\<lambda>r. ID r = k) (rows out)) =
        map snd (filter (\<lambda>p. fst p = k) (map (\<lambda>r. (ID r, ds r)) (rows out)))"
    by (simp add: filter_map o_def)
  also have "\<dots> = map ds (filter (\<lambda>r. ID r = k) (rows d))"
    using filter_no_key [of k "rows d"]
    by (simp add: df_pred_one [OF assms] grouped_filter_gen o_def)
  finally show ?thesis .
qed

text \<open>
  The cells. A row with one cell for each label keeps this shape in every assignment,
  and an assignment changes the cell under its own label alone.
\<close>

lemma map_of_zip_replace:
  "length vs = length cols \<Longrightarrow>
   map_of (zip cols (map2 (\<lambda>l x. if l = c then v else x) cols vs)) c' =
     (if c' = c then (if c \<in> set cols then Some v else None) else map_of (zip cols vs) c')"
proof (induction cols arbitrary: vs)
  case Nil
  then show ?case by simp
next
  case (Cons l cols)
  then obtain x xs where "vs = x # xs" and "length xs = length cols"
    by (cases vs) auto
  with Cons.IH [of xs] show ?case by auto
qed

lemma map_of_zip_rename:
  "new \<notin> set cols \<Longrightarrow>
   map_of (zip (map (\<lambda>c. if c = old then new else c) cols) vs) c' =
     (if c' = new then map_of (zip cols vs) old
      else if c' = old then None else map_of (zip cols vs) c')"
proof (induction cols arbitrary: vs)
  case Nil
  then show ?case by simp
next
  case (Cons l cols)
  show ?case
  proof (cases vs)
    case Nil
    then show ?thesis by simp
  next
    case (Cons x xs)
    with Cons.prems Cons.IH [of xs] show ?thesis by auto
  qed
qed

lemma cell_set_cell:
  assumes "length (vals r) = length cols"
  shows "cell (if c \<in> set cols then cols else cols @ [c]) (set_cell cols c r v) c' =
           (if c' = c then v else cell cols r c')"
proof (cases "c \<in> set cols")
  case True
  then show ?thesis
    using assms by (simp add: cell_def set_cell_def map_of_zip_replace)
next
  case False
  have none: "map_of (zip cols (vals r)) k = None" if "k \<notin> set cols" for k
    using that assms by (simp add: map_of_zip_is_None)
  have some: "\<exists>x. map_of (zip cols (vals r)) k = Some x" if "k \<in> set cols" for k
    using that assms by (cases "map_of (zip cols (vals r)) k") (simp_all add: map_of_zip_is_None)
  show ?thesis
  proof (cases "c' \<in> set cols")
    case True
    from some [OF True] obtain x where "map_of (zip cols (vals r)) c' = Some x" by blast
    with True False show ?thesis
      using assms by (auto simp: cell_def set_cell_def map_add_def)
  next
    case c': False
    show ?thesis
      using assms False c' by (simp add: cell_def set_cell_def map_add_def none)
  qed
qed

lemma set_cell_length:
  "length (vals r) = length cols \<Longrightarrow>
   length (vals (set_cell cols c r v)) = length (if c \<in> set cols then cols else cols @ [c])"
  by (simp add: set_cell_def)

lemma set_cell_keys: "ID (set_cell cols c r v) = ID r" "ds (set_cell cols c r v) = ds r"
  by (simp_all add: set_cell_def)

lemma cell_rename:
  "new \<notin> set cols \<Longrightarrow> c' \<noteq> old \<Longrightarrow>
   cell (map (\<lambda>c. if c = old then new else c) cols) r c' =
     (if c' = new then cell cols r old else cell cols r c')"
  by (simp add: cell_def map_of_zip_rename)

lemma map2_map_same: "map2 g xs (map f xs) = map (\<lambda>x. g x (f x)) xs"
  by (induction xs) simp_all

lemma map2_maps: "map2 h (map f xs) (map g xs) = map (\<lambda>x. h (f x) (g x)) xs"
  by (induction xs) simp_all

lemma set_column_map:
  "set_column c (map f (rows d)) d =
     d\<lparr>columns := (if c \<in> set (columns d) then columns d else columns d @ [c]),
       rows := map (\<lambda>r. set_cell (columns d) c r (f r)) (rows d)\<rparr>"
  by (simp add: set_column_def map2_map_same)

lemma get_column_Inr:
  "get_column d c = Inr vs \<Longrightarrow> vs = map (\<lambda>r. cell (columns d) r c) (rows d)"
  by (auto simp: get_column_def split: if_splits)


lemma cell_ID_update: "cell cols (r\<lparr>ID := k\<rparr>) c = cell cols r c"
  by (simp add: cell_def)

lemma labels_0:
  "label ''yhat'' 0 = ''yhat1''" "label ''yhat_raw'' 0 = ''yhat_raw1''"
  "label ''residual'' 0 = ''residual1''"
  by (simp_all add: label_def decimal.simps)

lemma step_0_explicit:
  assumes "step fl k 0 g = Inr g'"
  shows "g' = g\<lparr>columns :=
                 (let C1 = map (\<lambda>c. if c = ''yhat1'' then ''yhat_raw1'' else c) (columns g);
                      C2 = (if ''yhat1'' \<in> set C1 then C1 else C1 @ [''yhat1''])
                  in if ''residual1'' \<in> set C2 then C2 else C2 @ [''residual1'']),
               rows :=
                 (let C1 = map (\<lambda>c. if c = ''yhat1'' then ''yhat_raw1'' else c) (columns g);
                      C2 = (if ''yhat1'' \<in> set C1 then C1 else C1 @ [''yhat1''])
                  in map (\<lambda>r. (set_cell C2 ''residual1''
                                  (set_cell C1 ''yhat1'' r (np_round (cell C1 r ''yhat_raw1'')))
                                  (np_sub fl
                                     (cell C2 (set_cell C1 ''yhat1'' r (np_round (cell C1 r ''yhat_raw1''))) ''yhat_raw1'')
                                     (cell C2 (set_cell C1 ''yhat1'' r (np_round (cell C1 r ''yhat_raw1''))) ''y'')))
                               \<lparr>ID := k\<rparr>) (rows g))\<rparr>"
proof -
  define C1 where "C1 = map (\<lambda>c. if c = ''yhat1'' then ''yhat_raw1'' else c) (columns g)"
  define C2 where "C2 = (if ''yhat1'' \<in> set C1 then C1 else C1 @ [''yhat1''])"
  define F1 where "F1 = (\<lambda>r. set_cell C1 ''yhat1'' r (np_round (cell C1 r ''yhat_raw1'')))"
  define d1 where "d1 = rename_column ''yhat1'' ''yhat_raw1'' g"
  have d1: "columns d1 = C1" "rows d1 = rows g"
    by (simp_all add: d1_def rename_column_def C1_def)
  from assms obtain yhat where yhat: "get_column d1 ''yhat_raw1'' = Inr yhat"
    by (auto simp: step_def Let_def labels_0 d1_def split: sum.splits)
  from get_column_Inr [OF yhat] have yhat_eq: "map np_round yhat = map (\<lambda>r. np_round (cell C1 r ''yhat_raw1'')) (rows d1)"
    by (simp add: d1 o_def)
  define d2 where "d2 = set_column ''yhat1'' (map np_round yhat) d1"
  have d2_eq: "d2 = d1\<lparr>columns := C2, rows := map F1 (rows g)\<rparr>"
    unfolding d2_def yhat_eq set_column_map by (simp add: d1 C2_def F1_def)
  have d2: "columns d2 = C2" "rows d2 = map F1 (rows g)"
    by (simp_all add: d2_eq)
  from assms yhat obtain raw y where raw: "get_column d2 ''yhat_raw1'' = Inr raw"
    and y: "get_column d2 ''y'' = Inr y"
    and g': "g' = set_ID k (set_column ''residual1'' (map2 (np_sub fl) raw y) d2)"
    by (auto simp: step_def Let_def labels_0 d1_def d2_def split: sum.splits)
  have vs: "map2 (np_sub fl) raw y =
      map (\<lambda>r. np_sub fl (cell C2 r ''yhat_raw1'') (cell C2 r ''y'')) (rows d2)"
    by (simp add: get_column_Inr [OF raw] get_column_Inr [OF y] map2_maps d2(1))
  show ?thesis
    unfolding g' vs set_column_map
    by (simp add: set_ID_def d2 d2_eq d1_def rename_column_def o_def Let_def
        C1_def [symmetric] C2_def [symmetric] F1_def)
qed

lemma step_0_cells:
  assumes st: "step fl k 0 g = Inr g'"
    and wf: "\<forall>r\<in>set (rows g). length (vals r) = length (columns g)"
    and nraw: "''yhat_raw1'' \<notin> set (columns g)"
  shows "map (\<lambda>r. (ID r, ds r, cell (columns g') r ''y'', cell (columns g') r ''yhat_raw1'',
                   cell (columns g') r ''yhat1'', cell (columns g') r ''residual1'')) (rows g') =
         map (\<lambda>r. (k, ds r, cell (columns g) r ''y'', cell (columns g) r ''yhat1'',
                   np_round (cell (columns g) r ''yhat1''),
                   np_sub fl (cell (columns g) r ''yhat1'') (cell (columns g) r ''y''))) (rows g)"
proof -
  define C1 where "C1 = map (\<lambda>c. if c = ''yhat1'' then ''yhat_raw1'' else c) (columns g)"
  define C2 where "C2 = (if ''yhat1'' \<in> set C1 then C1 else C1 @ [''yhat1''])"
  define C3 where "C3 = (if ''residual1'' \<in> set C2 then C2 else C2 @ [''residual1''])"
  define F1 where "F1 = (\<lambda>r. set_cell C1 ''yhat1'' r (np_round (cell C1 r ''yhat_raw1'')))"
  define F where "F = (\<lambda>r. (set_cell C2 ''residual1'' (F1 r)
      (np_sub fl (cell C2 (F1 r) ''yhat_raw1'') (cell C2 (F1 r) ''y'')))\<lparr>ID := k\<rparr>)"
  from step_0_explicit [OF st] have g': "columns g' = C3" "rows g' = map F (rows g)"
    by (simp_all add: Let_def C1_def [symmetric] C2_def [symmetric] C3_def F_def F1_def)
  have row: "(ID (F r), ds (F r), cell C3 (F r) ''y'', cell C3 (F r) ''yhat_raw1'',
                cell C3 (F r) ''yhat1'', cell C3 (F r) ''residual1'') =
             (k, ds r, cell (columns g) r ''y'', cell (columns g) r ''yhat1'',
                np_round (cell (columns g) r ''yhat1''),
                np_sub fl (cell (columns g) r ''yhat1'') (cell (columns g) r ''y''))"
    if r: "r \<in> set (rows g)" for r
  proof -
    from wf r have len: "length (vals r) = length C1" by (simp add: C1_def)
    have c1: "cell C1 r ''yhat_raw1'' = cell (columns g) r ''yhat1''"
      "cell C1 r ''y'' = cell (columns g) r ''y''"
      using nraw by (simp_all add: C1_def cell_rename)
    have c2: "cell C2 (F1 r) c = (if c = ''yhat1'' then np_round (cell C1 r ''yhat_raw1'') else cell C1 r c)" for c
      unfolding C2_def F1_def by (rule cell_set_cell [OF len])
    have len2: "length (vals (F1 r)) = length C2"
      unfolding C2_def F1_def by (rule set_cell_length [OF len])
    have c3: "cell C3 (set_cell C2 ''residual1'' (F1 r) v) c = (if c = ''residual1'' then v else cell C2 (F1 r) c)" for c v
      unfolding C3_def by (rule cell_set_cell [OF len2])
    have k1: "ds (F1 r) = ds r"
      by (simp add: F1_def set_cell_keys)
    show ?thesis
      by (simp add: F_def cell_ID_update c3 c2 c1 set_cell_keys k1)
  qed
  show ?thesis
    unfolding g' by (simp add: o_def row cong: map_cong)
qed

lemma df_pred_one_cells:
  assumes p: "df_pred fl 1 d = Inr out"
    and wf: "\<forall>r\<in>set (rows d). length (vals r) = length (columns d)"
    and nraw: "''yhat_raw1'' \<notin> set (columns d)"
  shows "map (\<lambda>r. (ds r, cell (columns out) r ''y'', cell (columns out) r ''yhat_raw1'',
                   cell (columns out) r ''yhat1'', cell (columns out) r ''residual1''))
           (filter (\<lambda>r. ID r = k) (rows out)) =
         map (\<lambda>r. (ds r, cell (columns d) r ''y'', cell (columns d) r ''yhat1'',
                   np_round (cell (columns d) r ''yhat1''),
                   np_sub fl (cell (columns d) r ''yhat1'') (cell (columns d) r ''y'')))
           (filter (\<lambda>r. ID r = k) (rows d))"
proof -
  let ?P = "\<lambda>cols r. (ID r, ds r, cell cols r ''y'', cell cols r ''yhat_raw1'',
                   cell cols r ''yhat1'', cell cols r ''residual1'')"
  let ?Q = "\<lambda>k r. (k, ds r, cell (columns d) r ''y'', cell (columns d) r ''yhat1'',
                   np_round (cell (columns d) r ''yhat1''),
                   np_sub fl (cell (columns d) r ''yhat1'') (cell (columns d) r ''y''))"
  have all: "map (?P (columns out)) (rows out) =
      concat (map (\<lambda>k. map (?Q k) (filter (\<lambda>r. ID r = k) (rows d))) (sort (remdups (map ID (rows d)))))"
  proof (rule df_pred_one_gen [OF p])
    fix k g'
    assume st: "step fl k 0 (d\<lparr>rows := filter (\<lambda>r. ID r = k) (rows d)\<rparr>) = Inr g'"
    from step_0_cells [OF st] wf nraw
    show "map (?P (columns g')) (rows g') = map (?Q k) (filter (\<lambda>r. ID r = k) (rows d))"
      by simp
  qed
  have "map (\<lambda>r. (ds r, cell (columns out) r ''y'', cell (columns out) r ''yhat_raw1'',
                   cell (columns out) r ''yhat1'', cell (columns out) r ''residual1''))
           (filter (\<lambda>r. ID r = k) (rows out)) =
        map snd (filter (\<lambda>p. fst p = k) (map (?P (columns out)) (rows out)))"
    by (simp add: filter_map o_def)
  also have "\<dots> = map snd (if k \<in> set (sort (remdups (map ID (rows d))))
      then map (?Q k) (filter (\<lambda>r. ID r = k) (rows d)) else [])"
    unfolding all by (subst grouped_filter_gen) simp_all
  also have "\<dots> = map (\<lambda>r. (ds r, cell (columns d) r ''y'', cell (columns d) r ''yhat1'',
                   np_round (cell (columns d) r ''yhat1''),
                   np_sub fl (cell (columns d) r ''yhat1'') (cell (columns d) r ''y'')))
           (filter (\<lambda>r. ID r = k) (rows d))"
    using filter_no_key [of k "rows d"] by (simp add: o_def)
  finally show ?thesis .
qed

lemma count_list_rename:
  "old \<noteq> new \<Longrightarrow>
   count_list (map (\<lambda>c. if c = old then new else c) cols) new = count_list cols old + count_list cols new"
  by (induction cols) auto

lemma count_list_rename_other:
  "c \<noteq> old \<Longrightarrow> c \<noteq> new \<Longrightarrow>
   count_list (map (\<lambda>c. if c = old then new else c) cols) c = count_list cols c"
  by (induction cols) auto

lemma count_list_pos: "count_list xs x = 1 \<Longrightarrow> x \<in> set xs"
  using count_list_0_iff [of xs x] by auto

lemma step_0_succeeds:
  assumes "count_list (columns g) ''yhat1'' = 1"
    and "''yhat_raw1'' \<notin> set (columns g)"
    and "count_list (columns g) ''y'' = 1"
  shows "\<exists>g'. step fl k 0 g = Inr g'"
proof -
  let ?C1 = "map (\<lambda>c. if c = ''yhat1'' then ''yhat_raw1'' else c) (columns g)"
  have raw: "count_list ?C1 ''yhat_raw1'' = 1"
    using assms(1,2) by (simp add: count_list_rename)
  have y: "count_list ?C1 ''y'' = 1"
    using assms(3) by (simp add: count_list_rename_other)
  have no: "''yhat1'' \<notin> set ?C1" by auto
  from count_list_pos [OF raw] count_list_pos [OF y] raw y no show ?thesis
    by (simp add: step_def labels_0 Let_def get_column_def rename_column_def set_column_def)
qed

lemma concat_succeeds:
  "p = DataFrame \<or> columns p = columns g \<Longrightarrow> \<exists>p'. pd_concat p g = Inr p'"
  by (auto simp: pd_concat_def DataFrame_def)

lemma group_loop_one_total:
  assumes "\<And>k. \<exists>g'. step fl k 0 (d\<lparr>rows := filter (\<lambda>r. ID r = k) (rows d)\<rparr>) = Inr g'"
    and "p = DataFrame \<or> (\<exists>k g g'. step fl k 0 g = Inr g' \<and> columns g = columns d \<and> columns p = columns g')"
  shows "\<exists>out. group_loop fl 1 (map (\<lambda>k. (k, d\<lparr>rows := filter (\<lambda>r. ID r = k) (rows d)\<rparr>)) ks) p = Inr out"
  using assms(2)
proof (induction ks arbitrary: p)
  case Nil
  then show ?case by simp
next
  case (Cons k ks)
  let ?g = "d\<lparr>rows := filter (\<lambda>r. ID r = k) (rows d)\<rparr>"
  from assms(1) obtain g1 where st: "step fl k 0 ?g = Inr g1" by blast
  have cols: "p = DataFrame \<or> columns p = columns g1"
  proof (cases "p = DataFrame")
    case True
    then show ?thesis by simp
  next
    case False
    with Cons.prems obtain k' g g' where "step fl k' 0 g = Inr g'" and "columns g = columns d"
      and "columns p = columns g'" by blast
    with step_columns [OF st, of k' g g'] show ?thesis by simp
  qed
  from concat_succeeds [OF cols] obtain p1 where cc: "pd_concat p g1 = Inr p1" by blast
  from concat_rows [OF cc cols] have c1: "columns p1 = columns g1" by simp
  have inv: "p1 = DataFrame \<or> (\<exists>k g g'. step fl k 0 g = Inr g' \<and> columns g = columns d \<and> columns p1 = columns g')"
    using st c1 by (intro disjI2 exI [of _ k] exI [of _ ?g] exI [of _ g1]) simp
  from Cons.IH [OF inv] st cc show ?case by simp
qed

lemma df_pred_one_total:
  assumes "count_list (columns d) ''yhat1'' = 1"
    and "''yhat_raw1'' \<notin> set (columns d)"
    and "count_list (columns d) ''y'' = 1"
  shows "\<exists>out. df_pred fl 1 d = Inr out"
  using group_loop_one_total [of fl d DataFrame "sort (remdups (map ID (rows d)))"]
    step_0_succeeds [of "d\<lparr>rows := _\<rparr>" fl] assms
  by (simp add: df_pred_def groupby_ID_def)

lemma upt_0_2: "[0..<2] = [0, 1]"
  by (simp add: upt_rec)

lemmas frame_eval = upt_0_2 df_pred_def groupby_ID_def DataFrame_def step_def label_def
  decimal.simps rename_column_def get_column_def set_column_def set_cell_def set_ID_def pd_concat_def
  reindex_def cell_def rint_def Let_def

lemmas example_eval = predict_def example_super_predict_def example_prep_or_copy_df_def
  example_return_df_def example_fitted_def example_forecast_def

text \<open>
  The run of \<^verbatim>\<open>predict\<close> on the two series of the example, where all differences are
  exact.
\<close>

lemma predict_example:
  "predict example_super_predict example_prep_or_copy_df example_return_df Fin
     (example_fitted 0 ''bce'') example_forecast =
   Inr \<lparr>columns = [''y'', ''yhat_raw1'', ''yhat1'', ''residual1''],
        rows = [\<lparr>ID = ''A'', ds = 1, vals = [Fin 0, Fin (1 / 4), Fin 0, Fin (1 / 4)]\<rparr>,
                \<lparr>ID = ''A'', ds = 2, vals = [Fin 1, Fin (3 / 4), Fin 1, Fin (- 1 / 4)]\<rparr>,
                \<lparr>ID = ''B'', ds = 1, vals = [Fin 1, Fin (7 / 8), Fin 1, Fin (- 1 / 8)]\<rparr>,
                \<lparr>ID = ''B'', ds = 2, vals = [Fin 0, Fin (1 / 8), Fin 0, Fin (1 / 8)]\<rparr>]\<rparr>"
  by (simp add: example_eval frame_eval)

subsection \<open>The order of the series and of their rows\<close>

text \<open>
  Claim C2 as it is stated fails. \<^verbatim>\<open>groupby\<close> sorts its keys, so the series come out
  in the ascending order of their identifiers, not in the order in which the input has
  them: with \<^verbatim>\<open>B\<close> before \<^verbatim>\<open>A\<close> in the input, \<^verbatim>\<open>A\<close> is before \<^verbatim>\<open>B\<close> in the output.
\<close>

theorem predict_sorts_series:
  "map_sum id (\<lambda>p. remdups (map ID (rows p)))
     (predict example_super_predict example_prep_or_copy_df example_return_df Fin
        (example_fitted 0 ''bce'') example_forecast) = Inr [''A'', ''B''] \<and>
   remdups (map ID (rows example_forecast)) = [''B'', ''A'']"
  by (simp add: example_eval frame_eval)

text \<open>
  Claim C2, amended. With one forecast step, whenever \<^verbatim>\<open>predict\<close> returns, the table
  \<open>p\<close> that it hands to \<^verbatim>\<open>return_df_in_original_format\<close> has the series in the
  ascending order of their identifiers, and the rows of each series in the order they
  have in the table \<open>d\<close> that \<^verbatim>\<open>prep_or_copy_df\<close> gave. (The time stamps \<open>ds\<close> are any
  numbers, the row numbers of \<open>d\<close> for one, so the second part is about the rows
  themselves.) Nothing is said here of more than one forecast step.
\<close>

theorem predict_series_order:
  assumes "n_forecasts self = 1"
    and "super_predict self x = Inr forecast"
    and "prep_or_copy_df forecast = Inr (d, a, b, c)"
    and "predict super_predict prep_or_copy_df return_df_in_original_format fl self x = Inr out"
  shows "\<exists>p. df_pred fl 1 d = Inr p \<and> return_df_in_original_format p a b c = Inr out \<and>
             sorted (map ID (rows p)) \<and>
             (\<forall>k. map ds (filter (\<lambda>r. ID r = k) (rows p)) =
                  map ds (filter (\<lambda>r. ID r = k) (rows d)))"
proof -
  from assms obtain p where p: "df_pred fl 1 d = Inr p"
    and out: "return_df_in_original_format p a b c = Inr out"
    by (auto simp: predict_def split: sum.splits)
  from df_pred_one_sorted [OF p] df_pred_one_series [OF p] out p show ?thesis by blast
qed

text \<open>The amended claim at the two series \<^verbatim>\<open>B\<close> and \<^verbatim>\<open>A\<close> of the example.\<close>

theorem predict_series_order_witness:
  "map_sum id (\<lambda>p. map (\<lambda>r. (ID r, ds r)) (rows p))
     (predict example_super_predict example_prep_or_copy_df example_return_df Fin
        (example_fitted 0 ''bce'') example_forecast) =
     Inr [(''A'', 1), (''A'', 2), (''B'', 1), (''B'', 2)] \<and>
   (\<exists>p :: frame. sorted (map ID (rows p)) \<and>
        (\<forall>k. map ds (filter (\<lambda>r. ID r = k) (rows p)) =
             map ds (filter (\<lambda>r. ID r = k) (rows example_forecast))))"
proof -
  note run = predict_example
  have n: "n_forecasts (example_fitted 0 ''bce'') = 1"
    by (simp add: example_fitted_def)
  have fc: "example_super_predict (example_fitted 0 ''bce'') example_forecast = Inr example_forecast"
    by (simp add: example_super_predict_def)
  have prep: "example_prep_or_copy_df example_forecast = Inr (example_forecast, True, False, False)"
    by (simp add: example_prep_or_copy_df_def example_forecast_def)
  from predict_series_order [OF n fc prep run]
  have "\<exists>p :: frame. sorted (map ID (rows p)) \<and>
        (\<forall>k. map ds (filter (\<lambda>r. ID r = k) (rows p)) =
             map ds (filter (\<lambda>r. ID r = k) (rows example_forecast)))"
    by blast
  then show ?thesis by (simp add: run)
qed

subsection \<open>Values outside the unit interval\<close>

text \<open>
  Claim C8. \<^verbatim>\<open>predict\<close> neither clamps nor checks the raw forecast: there is a raw value
  \<open>x\<close> outside the interval from 0 to 1 for which the class prediction \<^verbatim>\<open>yhat1\<close> is a
  number \<open>r\<close> other than 0 and 1 (here 5/2, which is rounded to 2). The row of the
  output has the raw value, the rounded one and the residual, in this order, after
  the label \<^verbatim>\<open>y\<close>.
\<close>

theorem predict_rounds_out_of_range:
  "\<exists>x r. (x < 0 \<or> 1 < x) \<and> r \<noteq> 0 \<and> r \<noteq> 1 \<and>
     predict example_super_predict example_prep_or_copy_df example_return_df fl
       (example_fitted 0 ''bce'')
       \<lparr>columns = [''y'', ''yhat1''], rows = [\<lparr>ID = ''A'', ds = 1, vals = [Fin 1, Fin x]\<rparr>]\<rparr> =
     Inr \<lparr>columns = [''y'', ''yhat_raw1'', ''yhat1'', ''residual1''],
          rows = [\<lparr>ID = ''A'', ds = 1, vals = [Fin 1, Fin x, Fin r, fl (x - 1)]\<rparr>]\<rparr>"
  by (rule exI [of _ "5 / 2"], rule exI [of _ 2]) (simp add: example_eval frame_eval)

subsection \<open>One forecast step\<close>

text \<open>
  With one forecast step the loops do what they are meant to do. Let the table \<open>d\<close>
  that \<^verbatim>\<open>prep_or_copy_df\<close> gives have one cell for each label in every row, one column
  \<^verbatim>\<open>yhat1\<close>, one column \<^verbatim>\<open>y\<close> and no column \<^verbatim>\<open>yhat_raw1\<close>. Then the two loops return a
  table \<open>p\<close>, which \<^verbatim>\<open>predict\<close> hands to \<^verbatim>\<open>return_df_in_original_format\<close>. In \<open>p\<close>
  the series are in the ascending order of their identifiers, and the rows of each
  series are those of \<open>d\<close> in their order, with the label \<^verbatim>\<open>y\<close> as it was, the forecast
  under \<^verbatim>\<open>yhat_raw1\<close>, its rounding under \<^verbatim>\<open>yhat1\<close> and the forecast minus the label
  under \<^verbatim>\<open>residual1\<close>.
\<close>

theorem predict_one_step:
  assumes "n_forecasts self = 1"
    and "super_predict self x = Inr forecast"
    and "prep_or_copy_df forecast = Inr (d, a, b, c)"
    and "\<forall>r\<in>set (rows d). length (vals r) = length (columns d)"
    and "count_list (columns d) ''yhat1'' = 1"
    and "''yhat_raw1'' \<notin> set (columns d)"
    and "count_list (columns d) ''y'' = 1"
  shows "\<exists>p. df_pred fl 1 d = Inr p \<and>
             predict super_predict prep_or_copy_df return_df_in_original_format fl self x =
               return_df_in_original_format p a b c \<and>
             sorted (map ID (rows p)) \<and>
             (\<forall>k. map (\<lambda>r. (ds r, cell (columns p) r ''y'', cell (columns p) r ''yhat_raw1'',
                            cell (columns p) r ''yhat1'', cell (columns p) r ''residual1''))
                    (filter (\<lambda>r. ID r = k) (rows p)) =
                  map (\<lambda>r. (ds r, cell (columns d) r ''y'', cell (columns d) r ''yhat1'',
                            np_round (cell (columns d) r ''yhat1''),
                            np_sub fl (cell (columns d) r ''yhat1'') (cell (columns d) r ''y'')))
                    (filter (\<lambda>r. ID r = k) (rows d)))"
proof -
  from df_pred_one_total [OF assms(5,6,7)] obtain p where p: "df_pred fl 1 d = Inr p" by blast
  have "predict super_predict prep_or_copy_df return_df_in_original_format fl self x =
      return_df_in_original_format p a b c"
    using assms(1,2,3) p by (simp add: predict_def)
  with p df_pred_one_sorted [OF p] df_pred_one_cells [OF p assms(4,6)] show ?thesis
    by blast
qed

subsection \<open>More than one forecast step\<close>

text \<open>
  Claim C4 does not hold of the code. The call of \<^verbatim>\<open>pd.concat\<close> is in the body of the
  inner loop, so with two forecast steps the rows of a series are appended twice: once
  after the first step, when \<^verbatim>\<open>yhat2\<close> is still the raw forecast and there is neither
  \<^verbatim>\<open>yhat_raw2\<close> nor \<^verbatim>\<open>residual2\<close> (both NaN after the second \<^verbatim>\<open>concat\<close>), and once
  after the second step. For the first of the two rows below the claim fails at step 2:
  \<^verbatim>\<open>yhat2\<close> is 3/4 and not 1, and \<^verbatim>\<open>yhat_raw2\<close> and \<^verbatim>\<open>residual2\<close> are NaN.
\<close>

theorem predict_two_steps_unfinished_rows:
  "predict example_super_predict example_prep_or_copy_df example_return_df fl
     ((example_fitted 0 ''bce'')\<lparr>n_forecasts := 2\<rparr>)
     \<lparr>columns = [''y'', ''yhat1'', ''yhat2''],
      rows = [\<lparr>ID = ''A'', ds = 1, vals = [Fin 1, Fin (1 / 4), Fin (3 / 4)]\<rparr>]\<rparr> =
   Inr \<lparr>columns = [''y'', ''yhat_raw1'', ''yhat2'', ''yhat1'', ''residual1'', ''yhat_raw2'',
                   ''residual2''],
        rows = [\<lparr>ID = ''A'', ds = 1,
                 vals = [Fin 1, Fin (1 / 4), Fin (3 / 4), Fin 0, fl (- 3 / 4), NaN, NaN]\<rparr>,
                \<lparr>ID = ''A'', ds = 1,
                 vals = [Fin 1, Fin (1 / 4), Fin 1, Fin 0, fl (- 3 / 4), Fin (3 / 4),
                         fl (- 1 / 4)]\<rparr>]\<rparr>"
  by (simp add: example_eval frame_eval)

end
